theory Spec2Isabelle
  imports Main
begin

section \<open>Numbers\<close>

text \<open>
  The library is TypeScript: every \<open>number\<close> is an IEEE 754 double. Every finite
  double is an integer multiple of \<open>2 ^ -1074\<close> (the smallest subnormal), so a finite
  double is modelled by that integer: \<open>Fin n\<close> stands for \<open>n * 2 ^ -1074\<close>. The two
  zeros, which \<open>===\<close> identifies, are the one value \<open>Fin 0\<close>. The pixel value \<open>k\<close> is
  \<open>Fin (k * 2 ^ 1074)\<close>, written \<open>px k\<close>.
\<close>

datatype number = NaN | NegInf | Fin int | PosInf

definition px :: "int \<Rightarrow> number" where
  "px k = Fin (k * 2 ^ 1074)"

text \<open>The number of binary digits of a positive integer.\<close>

fun bitlen :: "int \<Rightarrow> nat" where
  "bitlen n = (if n \<le> 0 then 0 else Suc (bitlen (n div 2)))"

declare bitlen.simps [simp del]

text \<open>
  Rounding a non-negative multiple of \<open>2 ^ -1074\<close> to 53 significant bits, to nearest,
  ties to even: below \<open>2 ^ 53\<close> units every integer is a double (subnormals and the
  first binades); above, the \<open>k\<close> low bits are rounded away.
\<close>

definition round_sig :: "int \<Rightarrow> int" where
  "round_sig n =
     (if n < 2 ^ 53 then n
      else let k = bitlen n - 53;
               q = n div 2 ^ k;
               r = n mod 2 ^ k;
               h = 2 ^ (k - 1)
           in (if h < r \<or> (r = h \<and> odd q) then q + 1 else q) * 2 ^ k)"

text \<open>
  The double nearest to an exact result; a magnitude that rounds to \<open>2 ^ 1024\<close>
  (\<open>2 ^ 2098\<close> units) or more overflows to an infinity.
\<close>

definition fl :: "int \<Rightarrow> number" where
  "fl n = (let m = round_sig \<bar>n\<bar>
           in if 2 ^ 2098 \<le> m then (if n < 0 then NegInf else PosInf)
              else Fin (if n < 0 then - m else m))"

fun num_neg :: "number \<Rightarrow> number" where
  "num_neg NaN = NaN"
| "num_neg NegInf = PosInf"
| "num_neg PosInf = NegInf"
| "num_neg (Fin a) = Fin (- a)"

text \<open>The operator \<open>+\<close> on doubles.\<close>

fun num_add :: "number \<Rightarrow> number \<Rightarrow> number" where
  "num_add NaN _ = NaN"
| "num_add _ NaN = NaN"
| "num_add PosInf NegInf = NaN"
| "num_add NegInf PosInf = NaN"
| "num_add PosInf _ = PosInf"
| "num_add _ PosInf = PosInf"
| "num_add NegInf _ = NegInf"
| "num_add _ NegInf = NegInf"
| "num_add (Fin a) (Fin b) = fl (a + b)"

text \<open>The operator \<open>-\<close> on doubles: \<open>a - b\<close> is \<open>a + (-b)\<close>, rounded once.\<close>

definition num_sub :: "number \<Rightarrow> number \<Rightarrow> number" where
  "num_sub a b = num_add a (num_neg b)"

text \<open>The operator \<open><\<close> on doubles: false whenever an operand is \<open>NaN\<close>.\<close>

fun num_less :: "number \<Rightarrow> number \<Rightarrow> bool" where
  "num_less NaN _ = False"
| "num_less _ NaN = False"
| "num_less _ NegInf = False"
| "num_less NegInf _ = True"
| "num_less PosInf _ = False"
| "num_less _ PosInf = True"
| "num_less (Fin a) (Fin b) = (a < b)"

text \<open>\<open>Math.max\<close> and \<open>Math.min\<close> of two arguments: \<open>NaN\<close> if either is.\<close>

definition Math_max :: "number \<Rightarrow> number \<Rightarrow> number" where
  "Math_max a b = (if a = NaN \<or> b = NaN then NaN else if num_less a b then b else a)"

definition Math_min :: "number \<Rightarrow> number \<Rightarrow> number" where
  "Math_min a b = (if a = NaN \<or> b = NaN then NaN else if num_less b a then b else a)"

section \<open>Core types\<close>

text \<open>
  The interfaces \<open>Point\<close>, \<open>Rect\<close> and \<open>Margin\<close> of \<open>core/types.ts\<close>. A record field
  is a constant of the theory, so each field carries the name of its interface as a
  prefix (\<open>point_x\<close> is \<open>Point.x\<close>).
\<close>

record Point =
  point_x :: number
  point_y :: number

record Rect =
  rect_x :: number
  rect_y :: number
  rect_width :: number
  rect_height :: number

record Margin =
  margin_top :: number
  margin_right :: number
  margin_bottom :: number
  margin_left :: number

text \<open>\<open>Partial<Margin>\<close>: each inset is supplied (\<open>Some\<close>) or absent (\<open>None\<close>).\<close>

record PartialMargin =
  partial_top :: "number option"
  partial_right :: "number option"
  partial_bottom :: "number option"
  partial_left :: "number option"

section \<open>Coordinate system\<close>

record CoordinateSystem =
  cs_width :: number
  cs_height :: number
  cs_margin :: Margin

definition getInnerWidth :: "CoordinateSystem \<Rightarrow> number" where
  "getInnerWidth cs =
     Math_max (px 0)
       (num_sub (num_sub (cs_width cs) (margin_left (cs_margin cs)))
          (margin_right (cs_margin cs)))"

definition getInnerHeight :: "CoordinateSystem \<Rightarrow> number" where
  "getInnerHeight cs =
     Math_max (px 0)
       (num_sub (num_sub (cs_height cs) (margin_top (cs_margin cs)))
          (margin_bottom (cs_margin cs)))"

definition getPlotBounds :: "CoordinateSystem \<Rightarrow> Rect" where
  "getPlotBounds cs =
     \<lparr> rect_x = margin_left (cs_margin cs),
       rect_y = margin_top (cs_margin cs),
       rect_width = getInnerWidth cs,
       rect_height = getInnerHeight cs \<rparr>"

definition dataToScreen :: "CoordinateSystem \<Rightarrow> Point \<Rightarrow> Point" where
  "dataToScreen cs point =
     \<lparr> point_x = num_add (margin_left (cs_margin cs)) (point_x point),
       point_y = num_add (margin_top (cs_margin cs)) (point_y point) \<rparr>"

definition screenToData :: "CoordinateSystem \<Rightarrow> Point \<Rightarrow> Point" where
  "screenToData cs point =
     \<lparr> point_x = num_sub (point_x point) (margin_left (cs_margin cs)),
       point_y = num_sub (point_y point) (margin_top (cs_margin cs)) \<rparr>"

definition clampToPlotArea :: "CoordinateSystem \<Rightarrow> Point \<Rightarrow> Point" where
  "clampToPlotArea cs point =
     (let plotBounds = getPlotBounds cs
      in \<lparr> point_x =
             Math_max (rect_x plotBounds)
               (Math_min (num_add (rect_x plotBounds) (rect_width plotBounds)) (point_x point)),
           point_y =
             Math_max (rect_y plotBounds)
               (Math_min (num_add (rect_y plotBounds) (rect_height plotBounds)) (point_y point)) \<rparr>)"

definition resize :: "number \<Rightarrow> number \<Rightarrow> CoordinateSystem \<Rightarrow> CoordinateSystem" where
  "resize width height cs = cs\<lparr> cs_width := width, cs_height := height \<rparr>"

text \<open>
  \<open>{ ...this.margin, ...margin }\<close>: a fresh object with the old insets, each
  overwritten by the supplied one where there is one.
\<close>

definition spread :: "number \<Rightarrow> number option \<Rightarrow> number" where
  "spread old supplied = (case supplied of None \<Rightarrow> old | Some v \<Rightarrow> v)"

definition setMargin :: "PartialMargin \<Rightarrow> CoordinateSystem \<Rightarrow> CoordinateSystem" where
  "setMargin margin cs =
     cs\<lparr> cs_margin :=
           \<lparr> margin_top = spread (margin_top (cs_margin cs)) (partial_top margin),
             margin_right = spread (margin_right (cs_margin cs)) (partial_right margin),
             margin_bottom = spread (margin_bottom (cs_margin cs)) (partial_bottom margin),
             margin_left = spread (margin_left (cs_margin cs)) (partial_left margin) \<rparr> \<rparr>"

definition getMargin :: "CoordinateSystem \<Rightarrow> Margin" where
  "getMargin cs = cs_margin cs"

text \<open>
  The margin the chart gives its coordinate system by default
  (\<open>{ top: 20, right: 20, bottom: 40, left: 50 }\<close>), on an 800 by 600 surface.
\<close>

definition default_margin :: Margin where
  "default_margin =
     \<lparr> margin_top = px 20, margin_right = px 20, margin_bottom = px 40, margin_left = px 50 \<rparr>"

definition default_cs :: CoordinateSystem where
  "default_cs = \<lparr> cs_width = px 800, cs_height = px 600, cs_margin = default_margin \<rparr>"

text \<open>The double written \<open>0.1\<close>: \<open>3602879701896397 * 2 ^ -55\<close>.\<close>

definition tenth :: number where
  "tenth = Fin (3602879701896397 * 2 ^ 1019)"

section \<open>Object pool\<close>

text \<open>
  Pooled objects are mutable and shared: the caller keeps the reference it releases, and
  \<open>reset\<close> writes through it. So objects live in a store, from references to object
  states, and the pool holds references. \<open>next_ref\<close> is the reference the next
  constructed object gets.
\<close>

type_synonym ref = nat

record 'a store =
  objects :: "ref \<Rightarrow> 'a"
  next_ref :: ref

definition construct :: "'a \<Rightarrow> 'a store \<Rightarrow> ref \<times> 'a store" where
  "construct v st =
     (next_ref st, st\<lparr> objects := (objects st)(next_ref st := v), next_ref := Suc (next_ref st) \<rparr>)"

text \<open>
  \<open>factory\<close> is the state of the object that the factory function constructs, \<open>reset\<close>
  the effect of the reset function on an object's state. The capacity \<open>maxSize\<close> is a
  count of objects, a natural number (1000 when the constructor is given none).
\<close>

record 'a ObjectPool =
  pool :: "ref list"
  factory :: "'a"
  reset :: "'a \<Rightarrow> 'a"
  maxSize :: nat

definition ObjectPool_new :: "'a \<Rightarrow> ('a \<Rightarrow> 'a) \<Rightarrow> nat option \<Rightarrow> 'a ObjectPool" where
  "ObjectPool_new f r m =
     \<lparr> pool = [], factory = f, reset = r, maxSize = (case m of None \<Rightarrow> 1000 | Some n \<Rightarrow> n) \<rparr>"

text \<open>
  \<open>acquire\<close> pops the last reference; a reference to an object is truthy, so the
  test \<open>if (obj)\<close> on the popped value passes.
\<close>

definition acquire :: "'a ObjectPool \<Rightarrow> 'a store \<Rightarrow> ref \<times> 'a ObjectPool \<times> 'a store" where
  "acquire P st =
     (if length (pool P) > 0 then (last (pool P), P\<lparr> pool := butlast (pool P) \<rparr>, st)
      else let (obj, st') = construct (factory P) st in (obj, P, st'))"

definition release :: "ref \<Rightarrow> 'a ObjectPool \<Rightarrow> 'a store \<Rightarrow> 'a ObjectPool \<times> 'a store" where
  "release obj P st =
     (if length (pool P) < maxSize P
      then (P\<lparr> pool := pool P @ [obj] \<rparr>,
            st\<lparr> objects := (objects st)(obj := reset P (objects st obj)) \<rparr>)
      else (P, st))"

definition clear :: "'a ObjectPool \<Rightarrow> 'a ObjectPool" where
  "clear P = P\<lparr> pool := [] \<rparr>"

definition pool_size :: "'a ObjectPool \<Rightarrow> nat" where
  "pool_size P = length (pool P)"

definition PointPool :: "Point ObjectPool" where
  "PointPool =
     ObjectPool_new \<lparr> point_x = px 0, point_y = px 0 \<rparr>
       (\<lambda>p. p\<lparr> point_x := px 0, point_y := px 0 \<rparr>) None"

definition RectPool :: "Rect ObjectPool" where
  "RectPool =
     ObjectPool_new \<lparr> rect_x = px 0, rect_y = px 0, rect_width = px 0, rect_height = px 0 \<rparr>
       (\<lambda>r. r\<lparr> rect_x := px 0, rect_y := px 0, rect_width := px 0, rect_height := px 0 \<rparr>) None"

text \<open>A sequence of calls on one pool.\<close>

datatype pool_call = Acquire | Release ref | Clear

fun pool_step :: "'a ObjectPool \<times> 'a store \<Rightarrow> pool_call \<Rightarrow> 'a ObjectPool \<times> 'a store" where
  "pool_step (P, st) Acquire = (case acquire P st of (obj, P', st') \<Rightarrow> (P', st'))"
| "pool_step (P, st) (Release obj) = release obj P st"
| "pool_step (P, st) Clear = (clear P, st)"

definition pool_run :: "'a ObjectPool \<times> 'a store \<Rightarrow> pool_call list \<Rightarrow> 'a ObjectPool \<times> 'a store" where
  "pool_run s calls = foldl pool_step s calls"

text \<open>Every pooled object is in a state that \<open>canon\<close> accepts.\<close>

definition pool_clean :: "('a \<Rightarrow> bool) \<Rightarrow> 'a ObjectPool \<Rightarrow> 'a store \<Rightarrow> bool" where
  "pool_clean canon P st = list_all (\<lambda>r. canon (objects st r)) (pool P)"

definition is_origin :: "Point \<Rightarrow> bool" where
  "is_origin p = (point_x p = px 0 \<and> point_y p = px 0)"

definition five_seven :: "Point store" where
  "five_seven = \<lparr> objects = (\<lambda>r. \<lparr> point_x = px 5, point_y = px 7 \<rparr>), next_ref = 1 \<rparr>"

section \<open>Frame scheduling\<close>

text \<open>
  \<open>scheduleRender\<close> rests on the host's animation frame callbacks. The host keeps a
  list of callbacks, each under the handle it was registered with:
  \<open>requestAnimationFrame\<close> appends a callback under a fresh handle and returns the
  handle, \<open>cancelAnimationFrame\<close> removes the callback registered under a handle, and
  at the next frame the host takes the list, leaves an empty one, and runs the callbacks
  it took in order. The callback that \<open>scheduleRender\<close> registers is the closure
  \<open>() => { callback(); this.animationFrameId = null; }\<close>: the entry \<open>(h, cb)\<close> of the
  list stands for that closure around \<open>cb\<close>, and \<open>executed\<close> records the calls
  \<open>callback()\<close> made so far. Of the renderer, only the field \<open>animationFrameId\<close> takes
  part.
\<close>

record 'cb scheduler =
  animationFrameId :: "nat option"
  next_handle :: nat
  frame_callbacks :: "(nat \<times> 'cb) list"
  executed :: "'cb list"


definition cancelAnimationFrame :: "nat \<Rightarrow> 'cb scheduler \<Rightarrow> 'cb scheduler" where
  "cancelAnimationFrame h s =
     s\<lparr> frame_callbacks := filter (\<lambda>e. fst e \<noteq> h) (frame_callbacks s) \<rparr>"


definition cancelRender :: "'cb scheduler \<Rightarrow> 'cb scheduler" where
  "cancelRender s =
     (case animationFrameId s of
        Some h \<Rightarrow> (cancelAnimationFrame h s)\<lparr> animationFrameId := None \<rparr>
      | None \<Rightarrow> s)"






section \<open>Event manager\<close>

datatype EventType =
  Click | MouseMove | MouseEnter | MouseLeave | MouseDown | MouseUp
  | TouchStart | TouchMove | TouchEnd

record Touch =
  touch_clientX :: number
  touch_clientY :: number

text \<open>
  The raw input: a \<open>MouseEvent\<close> with its \<open>clientX\<close> and \<open>clientY\<close>, or a
  \<open>TouchEvent\<close> with its list \<open>touches\<close> of the contacts still on the surface.
\<close>

datatype DomEvent = MouseEvent number number | TouchEvent "Touch list"

record NormalizedEvent =
  ne_type :: EventType
  ne_point :: Point
  ne_originalEvent :: DomEvent

text \<open>
  A handler is a function of the caller, known here by its identity. \<open>handlers\<close> is the
  \<open>Map\<close> from event types to \<open>Set\<close>s of handlers, a set being the list of its
  members in insertion order. Of the canvas, the origin of its bounding rectangle
  (\<open>getBoundingClientRect()\<close>) takes part.
\<close>

type_synonym EventHandler = nat

record EventManager =
  canvas_left :: number
  canvas_top :: number
  handlers :: "EventType \<Rightarrow> EventHandler list option"

definition getEventPoint :: "EventManager \<Rightarrow> DomEvent \<Rightarrow> Point option" where
  "getEventPoint em event =
     (case event of
        MouseEvent clientX clientY \<Rightarrow>
          Some \<lparr> point_x = num_sub clientX (canvas_left em),
                 point_y = num_sub clientY (canvas_top em) \<rparr>
      | TouchEvent touches \<Rightarrow>
          (if length touches > 0
           then (case touches of
                   [] \<Rightarrow> None
                 | touch # _ \<Rightarrow>
                     Some \<lparr> point_x = num_sub (touch_clientX touch) (canvas_left em),
                            point_y = num_sub (touch_clientY touch) (canvas_top em) \<rparr>)
           else None))"

text \<open>
  The loop \<open>for (const handler of handlers) handler(normalizedEvent)\<close>. What a handler
  does is the caller's; \<open>raises h e\<close> tells whether handler \<open>h\<close> throws on event \<open>e\<close>.
  The result is the list of the calls made, and the handler whose exception ended the
  loop and left \<open>handleEvent\<close>, if one threw.
\<close>

fun call_handlers ::
  "(EventHandler \<Rightarrow> NormalizedEvent \<Rightarrow> bool) \<Rightarrow> NormalizedEvent \<Rightarrow> EventHandler list
     \<Rightarrow> (EventHandler \<times> NormalizedEvent) list \<times> EventHandler option" where
  "call_handlers raises e [] = ([], None)"
| "call_handlers raises e (h # hs) =
     (if raises h e then ([(h, e)], Some h)
      else (case call_handlers raises e hs of (calls, err) \<Rightarrow> ((h, e) # calls, err)))"

definition handleEvent ::
  "(EventHandler \<Rightarrow> NormalizedEvent \<Rightarrow> bool) \<Rightarrow> EventManager \<Rightarrow> EventType \<Rightarrow> DomEvent
     \<Rightarrow> (EventHandler \<times> NormalizedEvent) list \<times> EventHandler option" where
  "handleEvent raises em type event =
     (case getEventPoint em event of
        None \<Rightarrow> ([], None)
      | Some point \<Rightarrow>
          (let normalizedEvent =
                 \<lparr> ne_type = type, ne_point = point, ne_originalEvent = event \<rparr>
           in case handlers em type of
                None \<Rightarrow> ([], None)
              | Some hs \<Rightarrow> call_handlers raises normalizedEvent hs))"

definition on :: "EventType \<Rightarrow> EventHandler \<Rightarrow> EventManager \<Rightarrow> EventManager" where
  "on type handler em =
     (let hs = (case handlers em type of None \<Rightarrow> [] | Some hs \<Rightarrow> hs)
      in em\<lparr> handlers := (handlers em)(type \<mapsto> (if handler \<in> set hs then hs else hs @ [handler])) \<rparr>)"

definition off :: "EventType \<Rightarrow> EventHandler \<Rightarrow> EventManager \<Rightarrow> EventManager" where
  "off type handler em =
     (case handlers em type of
        None \<Rightarrow> em
      | Some hs \<Rightarrow> em\<lparr> handlers := (handlers em)(type \<mapsto> filter (\<lambda>h. h \<noteq> handler) hs) \<rparr>)"

text \<open>A manager on a canvas whose bounding rectangle starts at (8, 8), with two listeners.\<close>

definition two_listeners :: EventManager where
  "two_listeners =
     on TouchEnd 2 (on TouchMove 2 (on TouchMove 1
       \<lparr> canvas_left = px 8, canvas_top = px 8, handlers = (\<lambda>_. None) \<rparr>))"

section \<open>Canvas renderer\<close>

datatype RenderLayer = Background | Grid | Data | Interaction | Overlay

datatype error = LayerNotFound RenderLayer | EmptyDomainError

text \<open>
  What a drawing context is asked to do: the calls \<open>clearRect\<close> and \<open>fillRect\<close>, the
  assignment to \<open>fillStyle\<close>, and \<open>component.render(ctx)\<close>, the call that hands the
  context to a renderable (known by its identity). The renderer's \<open>drawn\<close> lists the
  requests made so far, each with the layer whose context received it, in the order of
  time.
\<close>

datatype draw_call =
  ClearRect number number number number
  | SetFillStyle string
  | FillRect number number number number
  | Render nat

text \<open>Of a layer's canvas, its size in physical pixels (\<open>canvas.width\<close>, \<open>canvas.height\<close>).\<close>

record CanvasLayer =
  canvas_width :: number
  canvas_height :: number
  isDirty :: bool

text \<open>\<open>layers\<close> is the \<open>Map\<close> from layer types to layers, in insertion order.\<close>

record CanvasRenderer =
  layers :: "(RenderLayer \<times> CanvasLayer) list"
  drawn :: "(RenderLayer \<times> draw_call) list"

definition layer_clear :: "Rect option \<Rightarrow> CanvasLayer \<Rightarrow> draw_call \<times> CanvasLayer" where
  "layer_clear rect l =
     ((case rect of
         Some r \<Rightarrow> ClearRect (rect_x r) (rect_y r) (rect_width r) (rect_height r)
       | None \<Rightarrow> ClearRect (px 0) (px 0) (canvas_width l) (canvas_height l)),
      l\<lparr> isDirty := True \<rparr>)"

definition getLayer :: "CanvasRenderer \<Rightarrow> RenderLayer \<Rightarrow> error + CanvasLayer" where
  "getLayer r layer =
     (case map_of (layers r) layer of
        None \<Rightarrow> Inl (LayerNotFound layer)
      | Some canvasLayer \<Rightarrow> Inr canvasLayer)"

text \<open>The context of a layer is known by the layer it belongs to.\<close>

definition getContext :: "CanvasRenderer \<Rightarrow> RenderLayer \<Rightarrow> error + RenderLayer" where
  "getContext r layer =
     (case getLayer r layer of Inl e \<Rightarrow> Inl e | Inr canvasLayer \<Rightarrow> Inr layer)"

definition clearAll :: "CanvasRenderer \<Rightarrow> CanvasRenderer" where
  "clearAll r =
     \<lparr> layers = map (\<lambda>(k, l). (k, snd (layer_clear None l))) (layers r),
       drawn = drawn r @ map (\<lambda>(k, l). (k, fst (layer_clear None l))) (layers r) \<rparr>"

definition draw :: "RenderLayer \<Rightarrow> draw_call \<Rightarrow> CanvasRenderer \<Rightarrow> CanvasRenderer" where
  "draw ctx c r = r\<lparr> drawn := drawn r @ [(ctx, c)] \<rparr>"

section \<open>Chart\<close>

record Renderable =
  renderable_id :: nat
  renderable_layer :: "RenderLayer option"
  renderable_visible :: "bool option"

record ChartConfig =
  config_width :: number
  config_height :: number
  config_margin :: Margin
  config_backgroundColor :: string

record Chart =
  renderer :: CanvasRenderer
  config :: ChartConfig
  renderables :: "RenderLayer \<Rightarrow> Renderable list option"

definition add :: "Renderable \<Rightarrow> Chart \<Rightarrow> Chart" where
  "add renderable c =
     (let layer = (case renderable_layer renderable of None \<Rightarrow> Data | Some l \<Rightarrow> l);
          bucket = (case renderables c layer of None \<Rightarrow> [] | Some rs \<Rightarrow> rs)
      in c\<lparr> renderables := (renderables c)(layer \<mapsto> bucket @ [renderable]) \<rparr>)"

text \<open>
  The inner loop of \<open>render\<close>: \<open>if (component.visible !== false) component.render(ctx)\<close>.
  What a renderable draws is its own; the model records that it was called, and with
  which context.
\<close>

fun render_components :: "RenderLayer \<Rightarrow> Renderable list \<Rightarrow> CanvasRenderer \<Rightarrow> CanvasRenderer" where
  "render_components ctx [] r = r"
| "render_components ctx (component # components) r =
     render_components ctx components
       (if renderable_visible component \<noteq> Some False
        then draw ctx (Render (renderable_id component)) r else r)"

text \<open>
  The outer loop. A missing layer makes \<open>getContext\<close> throw, which ends \<open>render\<close>:
  the result is the renderer as the calls so far left it, and the error if there is one.
\<close>

fun render_layers ::
  "(RenderLayer \<Rightarrow> Renderable list option) \<Rightarrow> RenderLayer list \<Rightarrow> CanvasRenderer
     \<Rightarrow> CanvasRenderer \<times> error option" where
  "render_layers rs [] r = (r, None)"
| "render_layers rs (layer # ls) r =
     (case rs layer of
        None \<Rightarrow> render_layers rs ls r
      | Some components \<Rightarrow>
          (case getContext r layer of
             Inl e \<Rightarrow> (r, Some e)
           | Inr ctx \<Rightarrow> render_layers rs ls (render_components ctx components r)))"

definition layer_order :: "RenderLayer list" where
  "layer_order = [Background, Grid, Data, Interaction, Overlay]"

definition render :: "Chart \<Rightarrow> Chart \<times> error option" where
  "render c =
     (let r1 = clearAll (renderer c)
      in case getContext r1 Background of
           Inl e \<Rightarrow> (c\<lparr> renderer := r1 \<rparr>, Some e)
         | Inr bgCtx \<Rightarrow>
             (let r2 = draw bgCtx (SetFillStyle (config_backgroundColor (config c))) r1;
                  r3 = draw bgCtx
                         (FillRect (px 0) (px 0) (config_width (config c)) (config_height (config c)))
                         r2;
                  (r4, err) = render_layers (renderables c) layer_order r3
              in (c\<lparr> renderer := r4 \<rparr>, err)))"

text \<open>
  A chart as its constructor leaves it, 800 by 600 at a device pixel ratio of 1, white
  background, no renderable added.
\<close>

definition new_renderer :: CanvasRenderer where
  "new_renderer =
     \<lparr> layers = map (\<lambda>k. (k, \<lparr> canvas_width = px 800, canvas_height = px 600, isDirty = True \<rparr>))
                  layer_order,
       drawn = [] \<rparr>"

definition new_chart :: Chart where
  "new_chart =
     \<lparr> renderer = new_renderer,
       config = \<lparr> config_width = px 800, config_height = px 600, config_margin = default_margin,
                  config_backgroundColor = ''#ffffff'' \<rparr>,
       renderables = (\<lambda>_. None) \<rparr>"

text \<open>
  The same chart after four calls of \<open>add\<close>: a renderable with no layer and no
  visibility flag, a hidden one on the grid layer, a visible one on the background
  layer, and a visible one on the data layer.
\<close>

definition four_renderables :: Chart where
  "four_renderables =
     add \<lparr> renderable_id = 4, renderable_layer = Some Data, renderable_visible = Some True \<rparr>
       (add \<lparr> renderable_id = 3, renderable_layer = Some Background, renderable_visible = Some True \<rparr>
         (add \<lparr> renderable_id = 2, renderable_layer = Some Grid, renderable_visible = Some False \<rparr>
           (add \<lparr> renderable_id = 1, renderable_layer = None, renderable_visible = None \<rparr>
              new_chart)))"

text \<open>The calls that \<open>render\<close> makes on the renderables of one layer, hidden ones left out.\<close>

definition layer_renders :: "(RenderLayer \<Rightarrow> Renderable list option) \<Rightarrow> RenderLayer \<Rightarrow> (RenderLayer \<times> draw_call) list" where
  "layer_renders rs layer =
     map (\<lambda>component. (layer, Render (renderable_id component)))
       (filter (\<lambda>component. renderable_visible component \<noteq> Some False)
          (case rs layer of None \<Rightarrow> [] | Some components \<Rightarrow> components))"

definition has_all_layers :: "CanvasRenderer \<Rightarrow> bool" where
  "has_all_layers r = list_all (\<lambda>k. map_of (layers r) k \<noteq> None) layer_order"

section \<open>Scale manager\<close>

datatype ScaleType = Linear | Log | Pow | Sqrt | Time | Band | PointScale | Ordinal

text \<open>\<open>data.map((d, i) => accessor(d, i))\<close>: the accessor gets each datum and its index.\<close>

definition map_indexed :: "('d \<Rightarrow> nat \<Rightarrow> 'v) \<Rightarrow> 'd list \<Rightarrow> 'v list" where
  "map_indexed accessor data = map (\<lambda>(d, i). accessor d i) (zip data [0..<length data])"

text \<open>
  \<open>Array.from(new Set(values))\<close>: a \<open>Set\<close> is built by adding the values one by one,
  adding a value that is in the set changes nothing, and the set is read in insertion
  order. The accessor results are primitive values (numbers, strings), which a \<open>Set\<close>
  compares by value.
\<close>

definition set_add :: "'v list \<Rightarrow> 'v \<Rightarrow> 'v list" where
  "set_add s v = (if v \<in> set s then s else s @ [v])"

definition new_Set :: "'v list \<Rightarrow> 'v list" where
  "new_Set values = foldl set_add [] values"

text \<open>
  Modelled from the spec: \<open>extent\<close> of the library \<open>d3-array\<close>, which \<open>computeDomain\<close>
  imports and which is not among the sources. The spec has the continuous variants
  "take the numeric/date extent (min, max) over accessor results"; over no value at all
  there is no minimum and no maximum, and both components are \<open>undefined\<close>. The values
  are taken from a linear order (numbers other than \<open>NaN\<close>, or dates).
\<close>

definition extent :: "'v::linorder list \<Rightarrow> 'v option \<times> 'v option" where
  "extent values =
     (if values = [] then (None, None)
      else (Some (Min (set values)), Some (Max (set values))))"

text \<open>
  The source throws \<open>Error('Cannot compute domain: no valid data')\<close>, which the spec
  names \<open>EmptyDomainError\<close>.
\<close>

definition computeDomain ::
  "'d list \<Rightarrow> ('d \<Rightarrow> nat \<Rightarrow> 'v::linorder) \<Rightarrow> ScaleType \<Rightarrow> error + 'v list" where
  "computeDomain data accessor scaleType =
     (if scaleType = Band \<or> scaleType = PointScale \<or> scaleType = Ordinal
      then Inr (new_Set (map_indexed accessor data))
      else (case extent (map_indexed accessor data) of
              (Some minVal, Some maxVal) \<Rightarrow> Inr [minVal, maxVal]
            | _ \<Rightarrow> Inl EmptyDomainError))"

text \<open>
  The distinct values of a list in first-seen order: the value at each position where
  it occurs for the first time.
\<close>

definition first_seen :: "'v list \<Rightarrow> 'v list" where
  "first_seen vs = map (\<lambda>i. vs ! i) (filter (\<lambda>i. vs ! i \<notin> set (take i vs)) [0..<length vs])"

definition continuous :: "ScaleType \<Rightarrow> bool" where
  "continuous t = (t = Linear \<or> t = Log \<or> t = Pow \<or> t = Sqrt \<or> t = Time)"

definition categorical :: "ScaleType \<Rightarrow> bool" where
  "categorical t = (t = Band \<or> t = PointScale \<or> t = Ordinal)"

section \<open>Properties of the numbers\<close>

text \<open>
  An integer number of pixels below \<open>2 ^ 53\<close> in magnitude is a double, so sums and
  differences of whole pixels that stay below \<open>2 ^ 53\<close> are exact.
\<close>

lemma bitlen_pos: "0 < n \<Longrightarrow> bitlen n = Suc (bitlen (n div 2))"
  by (subst bitlen.simps) simp

lemma bitlen_nonpos: "n \<le> 0 \<Longrightarrow> bitlen n = 0"
  by (subst bitlen.simps) simp

lemma bitlen_double: "0 < n \<Longrightarrow> bitlen (2 * n) = Suc (bitlen n)"
  by (simp add: bitlen_pos)

lemma bitlen_mult_pow2: "0 < m \<Longrightarrow> bitlen (m * 2 ^ j) = bitlen m + j"
proof (induction j)
  case 0
  then show ?case by simp
next
  case (Suc j)
  from Suc.prems have "0 < m * 2 ^ j" by simp
  from bitlen_double [OF this] Suc show ?case by (simp add: mult.commute mult.left_commute)
qed

lemma bitlen_less: "0 \<le> n \<Longrightarrow> n < 2 ^ bitlen n"
proof (induction n rule: bitlen.induct)
  case (1 n)
  show ?case
  proof (cases "n \<le> 0")
    case True
    with "1.prems" show ?thesis by (simp add: bitlen_nonpos)
  next
    case False
    then have pos: "0 < n" by simp
    with "1.IH" have "n div 2 < 2 ^ bitlen (n div 2)" by simp
    then have "n < 2 * 2 ^ bitlen (n div 2)" by linarith
    with pos show ?thesis by (simp add: bitlen_pos)
  qed
qed

lemma bitlen_le: "0 < n \<Longrightarrow> n < 2 ^ j \<Longrightarrow> bitlen n \<le> j"
proof (induction j arbitrary: n)
  case 0
  then show ?case by simp
next
  case (Suc j)
  show ?case
  proof (cases "n div 2 = 0")
    case True
    with Suc.prems show ?thesis by (simp add: bitlen_pos bitlen_nonpos)
  next
    case False
    with Suc.prems have "0 < n div 2" and "n div 2 < 2 ^ j" by simp_all
    from Suc.IH [OF this] Suc.prems show ?thesis by (simp add: bitlen_pos)
  qed
qed

lemma round_sig_exact:
  assumes "0 \<le> n" and "2 ^ (bitlen n - 53) dvd n"
  shows "round_sig n = n"
proof (cases "n < 2 ^ 53")
  case True
  then show ?thesis by (simp add: round_sig_def)
next
  case False
  have "n < 2 ^ bitlen n" using assms(1) by (rule bitlen_less)
  with False have "53 < bitlen n"
    by (metis linorder_not_less order_less_le_trans power_increasing_iff one_less_numeral_iff
        semiring_norm(76) linorder_le_less_linear order.strict_trans2 power_increasing)
  then have k: "0 < bitlen n - 53" by simp
  from assms(2) have r: "n mod 2 ^ (bitlen n - 53) = 0" by simp
  have h: "(0::int) < 2 ^ (bitlen n - 53 - 1)" by simp
  from assms(2) have "n div 2 ^ (bitlen n - 53) * 2 ^ (bitlen n - 53) = n" by simp
  with False r h show ?thesis by (simp add: round_sig_def Let_def)
qed

lemma fl_scaled:
  assumes "\<bar>k\<bar> < 2 ^ 53" and "j + 53 \<le> 2098"
  shows "fl (k * 2 ^ j) = Fin (k * 2 ^ j)"
proof (cases "k = 0")
  case True
  then show ?thesis by (simp add: fl_def round_sig_def)
next
  case False
  then have pos: "0 < \<bar>k\<bar>" by simp
  have a: "\<bar>k * 2 ^ j\<bar> = \<bar>k\<bar> * 2 ^ j" by (simp add: abs_mult)
  from bitlen_le [OF pos assms(1)] have "bitlen \<bar>k\<bar> \<le> 53" .
  then have "bitlen (\<bar>k\<bar> * 2 ^ j) - 53 \<le> j"
    by (simp add: bitlen_mult_pow2 [OF pos])
  then have "(2::int) ^ (bitlen (\<bar>k\<bar> * 2 ^ j) - 53) dvd 2 ^ j"
    by (rule le_imp_power_dvd)
  then have "2 ^ (bitlen (\<bar>k\<bar> * 2 ^ j) - 53) dvd \<bar>k\<bar> * 2 ^ j"
    by (rule dvd_mult)
  then have rs: "round_sig (\<bar>k\<bar> * 2 ^ j) = \<bar>k\<bar> * 2 ^ j"
    by (intro round_sig_exact) simp_all
  from assms(1) have "\<bar>k\<bar> * 2 ^ j < 2 ^ 53 * (2 ^ j :: int)"
    by (intro mult_strict_right_mono) simp_all
  also have "\<dots> = 2 ^ (53 + j)" by (simp only: power_add)
  also from assms(2) have "\<dots> \<le> (2 ^ 2098 :: int)"
    by (intro power_increasing) simp_all
  finally have small: "\<not> 2 ^ 2098 \<le> \<bar>k\<bar> * (2 ^ j :: int)" by (simp only: not_le)
  have "fl (k * 2 ^ j) = Fin (if k * 2 ^ j < 0 then - (\<bar>k\<bar> * 2 ^ j) else \<bar>k\<bar> * 2 ^ j)"
    unfolding fl_def a rs Let_def using small by (simp only: if_False)
  also have "(if k * 2 ^ j < 0 then - (\<bar>k\<bar> * 2 ^ j) else \<bar>k\<bar> * 2 ^ j) = k * 2 ^ j"
    unfolding a [symmetric] by (simp only: abs_if split: if_splits) simp
  finally show ?thesis .
qed

lemma fl_px_exact: "\<bar>k\<bar> < 2 ^ 53 \<Longrightarrow> fl (k * 2 ^ 1074) = Fin (k * 2 ^ 1074)"
  by (rule fl_scaled) simp_all

lemma num_add_px: "\<bar>a + b\<bar> < 2 ^ 53 \<Longrightarrow> num_add (px a) (px b) = px (a + b)"
proof -
  assume "\<bar>a + b\<bar> < 2 ^ 53"
  then have "fl ((a + b) * 2 ^ 1074) = Fin ((a + b) * 2 ^ 1074)" by (rule fl_px_exact)
  then show ?thesis by (simp only: px_def num_add.simps distrib_right)
qed

lemma num_sub_px: "\<bar>a - b\<bar> < 2 ^ 53 \<Longrightarrow> num_sub (px a) (px b) = px (a - b)"
proof -
  assume "\<bar>a - b\<bar> < 2 ^ 53"
  then have "\<bar>a + - b\<bar> < 2 ^ 53" by simp
  then have "num_add (px a) (px (- b)) = px (a + - b)" by (rule num_add_px)
  then show ?thesis by (simp add: px_def num_sub_def)
qed

section \<open>Properties of the coordinate system\<close>

lemma clamp_idem:
  "Math_max lo (Math_min hi (Math_max lo (Math_min hi v))) = Math_max lo (Math_min hi v)"
  by (cases lo; cases hi; cases v) (simp_all add: Math_max_def Math_min_def)

text \<open>
  C8. \<open>clampToPlotArea\<close> is idempotent, for every point and every width, height and
  margin: clamping a clamped point gives the clamped point.
\<close>

theorem clampToPlotArea_idempotent:
  "clampToPlotArea cs (clampToPlotArea cs p) = clampToPlotArea cs p"
  by (simp add: clampToPlotArea_def Let_def clamp_idem)

text \<open>
  C10. \<open>resize\<close> sets the width and the height and leaves the margin as it was;
  \<open>setMargin\<close> leaves the width and the height as they were, and each inset of the new
  margin is the supplied one where one is supplied, the previous one otherwise.
\<close>

theorem resize_setMargin_frame:
  "cs_width (resize w h cs) = w \<and> cs_height (resize w h cs) = h \<and>
   cs_margin (resize w h cs) = cs_margin cs \<and>
   cs_width (setMargin m cs) = cs_width cs \<and> cs_height (setMargin m cs) = cs_height cs \<and>
   margin_top (getMargin (setMargin m cs)) =
     (case partial_top m of None \<Rightarrow> margin_top (getMargin cs) | Some v \<Rightarrow> v) \<and>
   margin_right (getMargin (setMargin m cs)) =
     (case partial_right m of None \<Rightarrow> margin_right (getMargin cs) | Some v \<Rightarrow> v) \<and>
   margin_bottom (getMargin (setMargin m cs)) =
     (case partial_bottom m of None \<Rightarrow> margin_bottom (getMargin cs) | Some v \<Rightarrow> v) \<and>
   margin_left (getMargin (setMargin m cs)) =
     (case partial_left m of None \<Rightarrow> margin_left (getMargin cs) | Some v \<Rightarrow> v)"
  by (simp add: resize_def setMargin_def getMargin_def spread_def split: option.split)

text \<open>
  C5, as stated, at the chart's default margin: \<open>0.1 - 50\<close> is rounded to 53 bits,
  and \<open>50 + (0.1 - 50)\<close> is \<open>0.10000000000000142\<close>, not \<open>0.1\<close>.
\<close>

theorem dataToScreen_screenToData_counterexample:
  "dataToScreen default_cs (screenToData default_cs \<lparr> point_x = tenth, point_y = px 0 \<rparr>)
     \<noteq> \<lparr> point_x = tenth, point_y = px 0 \<rparr>"
  by code_simp

text \<open>
  C5, amended. For a point and a margin with finite coordinates, where the two
  subtractions \<open>p.x - margin.left\<close> and \<open>p.y - margin.top\<close> are exact (their results
  are doubles as they are, nothing is rounded away), \<open>dataToScreen (screenToData p)\<close>
  is \<open>p\<close>: the transforms translate by the margin only and clamp nothing.
\<close>

theorem dataToScreen_screenToData_exact:
  assumes "point_x p = Fin a" and "point_y p = Fin b"
    and "margin_left (cs_margin cs) = Fin l" and "margin_top (cs_margin cs) = Fin t"
    and "fl a = Fin a" and "fl b = Fin b"
    and "fl (a - l) = Fin (a - l)" and "fl (b - t) = Fin (b - t)"
  shows "dataToScreen cs (screenToData cs p) = p"
  using assms by (simp add: dataToScreen_def screenToData_def num_sub_def)

theorem dataToScreen_screenToData_exact_witness:
  "dataToScreen default_cs (screenToData default_cs \<lparr> point_x = px 3, point_y = px 4 \<rparr>)
     = \<lparr> point_x = px 3, point_y = px 4 \<rparr>"
proof -
  have 1: "fl (3 * 2 ^ 1074) = Fin (3 * 2 ^ 1074)" by code_simp
  have 2: "fl (4 * 2 ^ 1074) = Fin (4 * 2 ^ 1074)" by code_simp
  have 3: "fl (3 * 2 ^ 1074 - 50 * 2 ^ 1074) = Fin (3 * 2 ^ 1074 - 50 * 2 ^ 1074)" by code_simp
  have 4: "fl (4 * 2 ^ 1074 - 20 * 2 ^ 1074) = Fin (4 * 2 ^ 1074 - 20 * 2 ^ 1074)" by code_simp
  show ?thesis
    by (rule dataToScreen_screenToData_exact [OF _ _ _ _ 1 2 3 4])
       (simp_all add: default_cs_def default_margin_def px_def)
qed

text \<open>
  Whole pixels are such a case: with coordinates and margins that are integers, and the
  coordinates and their differences to the margins below \<open>2 ^ 53\<close> in magnitude, the
  round trip is exact.
\<close>

lemma dataToScreen_screenToData_whole_pixels:
  assumes "margin_left (cs_margin cs) = px l" and "margin_top (cs_margin cs) = px t"
    and "\<bar>a\<bar> < 2 ^ 53" and "\<bar>b\<bar> < 2 ^ 53" and "\<bar>a - l\<bar> < 2 ^ 53" and "\<bar>b - t\<bar> < 2 ^ 53"
  shows "dataToScreen cs (screenToData cs \<lparr> point_x = px a, point_y = px b \<rparr>)
           = \<lparr> point_x = px a, point_y = px b \<rparr>"
proof -
  from assms(3) have "num_add (px l) (px (a - l)) = px a"
    using num_add_px [of l "a - l"] by simp
  moreover from assms(4) have "num_add (px t) (px (b - t)) = px b"
    using num_add_px [of t "b - t"] by simp
  ultimately show ?thesis
    using assms(1,2) num_sub_px [OF assms(5)] num_sub_px [OF assms(6)]
    by (simp add: dataToScreen_def screenToData_def)
qed

section \<open>Properties of the pool\<close>

lemma pool_step_bounded:
  "length (pool (fst s)) \<le> maxSize (fst s) \<Longrightarrow>
   length (pool (fst (pool_step s c))) \<le> maxSize (fst (pool_step s c)) \<and>
   maxSize (fst (pool_step s c)) = maxSize (fst s)"
  by (cases s; cases c)
     (auto simp: acquire_def release_def clear_def construct_def split: prod.splits)

lemma pool_run_bounded:
  "length (pool (fst s)) \<le> maxSize (fst s) \<Longrightarrow>
   length (pool (fst (pool_run s cs))) \<le> maxSize (fst (pool_run s cs)) \<and>
   maxSize (fst (pool_run s cs)) = maxSize (fst s)"
proof (induction cs arbitrary: s)
  case Nil
  then show ?case by (simp add: pool_run_def)
next
  case (Cons c cs)
  from pool_step_bounded [OF Cons.prems, of c]
  have "length (pool (fst (pool_step s c))) \<le> maxSize (fst (pool_step s c))"
    and m: "maxSize (fst (pool_step s c)) = maxSize (fst s)" by simp_all
  from Cons.IH [OF this(1)] m show ?case by (simp add: pool_run_def)
qed

text \<open>
  C9. A pool constructed with capacity \<open>maxSize\<close> never holds more than \<open>maxSize\<close>
  objects, whatever sequence of \<open>acquire\<close>, \<open>release\<close> and \<open>clear\<close> it goes through;
  and \<open>release\<close> on a pool that holds \<open>maxSize\<close> objects changes neither the pool nor
  any object: the released object is not reset and not retained.
\<close>

theorem pool_never_exceeds_maxSize:
  "pool_size (fst (pool_run (ObjectPool_new f r m, st) cs))
     \<le> maxSize (ObjectPool_new f r m) \<and>
   (maxSize P \<le> pool_size P \<longrightarrow> release obj P st = (P, st))"
proof
  have "length (pool (fst (ObjectPool_new f r m, st))) \<le> maxSize (fst (ObjectPool_new f r m, st))"
    by (simp add: ObjectPool_new_def)
  from pool_run_bounded [OF this, of cs]
  show "pool_size (fst (pool_run (ObjectPool_new f r m, st) cs)) \<le> maxSize (ObjectPool_new f r m)"
    by (simp add: pool_size_def)
  show "maxSize P \<le> pool_size P \<longrightarrow> release obj P st = (P, st)"
    by (simp add: release_def pool_size_def)
qed

theorem pool_never_exceeds_maxSize_witness:
  "pool_size (fst (pool_run (ObjectPool_new \<lparr> point_x = px 0, point_y = px 0 \<rparr> id (Some 1), five_seven)
      [Release 0, Release 1])) \<le> 1 \<and>
   maxSize (PointPool\<lparr> pool := [0], maxSize := 1 \<rparr>) \<le> pool_size (PointPool\<lparr> pool := [0], maxSize := 1 \<rparr>) \<and>
   release 1 (PointPool\<lparr> pool := [0], maxSize := 1 \<rparr>) five_seven
     = (PointPool\<lparr> pool := [0], maxSize := 1 \<rparr>, five_seven)"
  using pool_never_exceeds_maxSize
    [of "\<lparr> point_x = px 0, point_y = px 0 \<rparr>" id "Some 1" five_seven "[Release 0, Release 1]"
        "PointPool\<lparr> pool := [0], maxSize := 1 \<rparr>" 1]
  by (simp add: ObjectPool_new_def pool_size_def)

lemma pool_step_clean:
  assumes "pool_clean canon P st" and "canon (factory P)" and "\<And>v. canon (reset P v)"
  shows "pool_clean canon (fst (pool_step (P, st) c)) (snd (pool_step (P, st) c))"
  using assms
  by (cases c)
     (auto simp: pool_clean_def list_all_iff acquire_def release_def clear_def construct_def
        dest: in_set_butlastD split: prod.splits)

text \<open>
  C6. \<open>release(obj)\<close> followed by \<open>acquire()\<close>, on a pool whose objects are as their
  release left them (\<open>pool_clean\<close>), where \<open>canon\<close> is any property of object states that
  the factory and \<open>reset\<close> establish (for a pooled point: both coordinates are 0). The
  object that \<open>acquire\<close> returns satisfies \<open>canon\<close>. It is the released object, reset by
  \<open>release\<close>, when the pool had room for it; it is a freshly constructed object when the
  pool is empty at the time of \<open>acquire\<close>; and \<open>acquire\<close> itself resets nothing: when
  it takes an object from the pool it leaves every object as it is.
\<close>

theorem release_then_acquire_canonical:
  assumes "pool_clean canon P st" and "canon (factory P)" and "\<And>v. canon (reset P v)"
    and "release obj P st = (P1, st1)" and "acquire P1 st1 = (r, P2, st2)"
  shows "canon (objects st2 r) \<and>
         (length (pool P) < maxSize P \<longrightarrow> r = obj \<and> objects st2 r = reset P (objects st obj)) \<and>
         (pool P1 = [] \<longrightarrow> r = next_ref st \<and> objects st2 r = factory P) \<and>
         (pool P1 \<noteq> [] \<longrightarrow> st2 = st1)"
proof (cases "length (pool P) < maxSize P")
  case True
  with assms(4) have P1: "P1 = P\<lparr> pool := pool P @ [obj] \<rparr>"
    and st1: "st1 = st\<lparr> objects := (objects st)(obj := reset P (objects st obj)) \<rparr>"
    by (simp_all add: release_def)
  from assms(5) have "r = obj" "st2 = st1" by (simp_all add: acquire_def P1)
  with True assms(3) show ?thesis by (simp add: st1 P1)
next
  case False
  with assms(4) have same: "P1 = P" "st1 = st" by (simp_all add: release_def)
  show ?thesis
  proof (cases "pool P = []")
    case True
    with assms(5) same have "r = next_ref st" "objects st2 r = factory P"
      by (auto simp: acquire_def construct_def)
    with False True same assms(2) show ?thesis by simp
  next
    case nonempty: False
    with assms(5) same have "r = last (pool P)" "st2 = st" by (simp_all add: acquire_def)
    moreover from nonempty assms(1) have "canon (objects st (last (pool P)))"
      by (simp add: pool_clean_def list_all_iff)
    ultimately show ?thesis using False nonempty same by simp
  qed
qed

theorem release_then_acquire_canonical_witness:
  "pool_clean is_origin PointPool five_seven \<and> is_origin (factory PointPool) \<and>
   release 0 PointPool five_seven =
     (PointPool\<lparr> pool := [0] \<rparr>,
      five_seven\<lparr> objects := (objects five_seven)(0 := \<lparr> point_x = px 0, point_y = px 0 \<rparr>) \<rparr>) \<and>
   acquire (PointPool\<lparr> pool := [0] \<rparr>)
     (five_seven\<lparr> objects := (objects five_seven)(0 := \<lparr> point_x = px 0, point_y = px 0 \<rparr>) \<rparr>) =
     (0, PointPool,
      five_seven\<lparr> objects := (objects five_seven)(0 := \<lparr> point_x = px 0, point_y = px 0 \<rparr>) \<rparr>) \<and>
   is_origin (objects
     (five_seven\<lparr> objects := (objects five_seven)(0 := \<lparr> point_x = px 0, point_y = px 0 \<rparr>) \<rparr>) 0)"
proof -
  let ?st1 = "five_seven\<lparr> objects := (objects five_seven)(0 := \<lparr> point_x = px 0, point_y = px 0 \<rparr>) \<rparr>"
  have c: "pool_clean is_origin PointPool five_seven"
    by (simp add: pool_clean_def PointPool_def ObjectPool_new_def)
  have f: "is_origin (factory PointPool)"
    by (simp add: is_origin_def PointPool_def ObjectPool_new_def)
  have r: "is_origin (reset PointPool v)" for v
    by (simp add: is_origin_def PointPool_def ObjectPool_new_def)
  have rel: "release 0 PointPool five_seven = (PointPool\<lparr> pool := [0] \<rparr>, ?st1)"
    by (simp add: release_def PointPool_def ObjectPool_new_def five_seven_def)
  have acq: "acquire (PointPool\<lparr> pool := [0] \<rparr>) ?st1 = (0, PointPool, ?st1)"
    by (simp add: acquire_def PointPool_def ObjectPool_new_def)
  from release_then_acquire_canonical [of is_origin PointPool five_seven 0, OF c f r rel acq]
    c f rel acq
  show ?thesis by simp
qed

section \<open>Properties of frame scheduling\<close>








section \<open>Properties of the event manager\<close>

lemma call_handlers_event:
  "c \<in> set (fst (call_handlers raises e hs)) \<Longrightarrow> snd c = e"
  by (induction hs) (auto split: if_splits prod.splits)

text \<open>
  C7. A touch event with no touch point reaches no listener and raises nothing. A touch
  event with touch points is dispatched to the listeners of its type, and the point of
  every event dispatched is the first touch point less the origin of the canvas: the
  other touch points do not enter it.
\<close>

theorem handleEvent_touch:
  "handleEvent raises em type (TouchEvent []) = ([], None) \<and>
   handleEvent raises em type (TouchEvent (t # ts)) =
     (case handlers em type of
        None \<Rightarrow> ([], None)
      | Some hs \<Rightarrow>
          call_handlers raises
            \<lparr> ne_type = type,
              ne_point = \<lparr> point_x = num_sub (touch_clientX t) (canvas_left em),
                           point_y = num_sub (touch_clientY t) (canvas_top em) \<rparr>,
              ne_originalEvent = TouchEvent (t # ts) \<rparr> hs) \<and>
   (\<forall>c \<in> set (fst (handleEvent raises em type (TouchEvent (t # ts)))).
      ne_point (snd c) = \<lparr> point_x = num_sub (touch_clientX t) (canvas_left em),
                           point_y = num_sub (touch_clientY t) (canvas_top em) \<rparr>)"
proof (intro conjI ballI)
  show "handleEvent raises em type (TouchEvent []) = ([], None)"
    by (simp add: handleEvent_def getEventPoint_def)
  show eq: "handleEvent raises em type (TouchEvent (t # ts)) =
     (case handlers em type of
        None \<Rightarrow> ([], None)
      | Some hs \<Rightarrow>
          call_handlers raises
            \<lparr> ne_type = type,
              ne_point = \<lparr> point_x = num_sub (touch_clientX t) (canvas_left em),
                           point_y = num_sub (touch_clientY t) (canvas_top em) \<rparr>,
              ne_originalEvent = TouchEvent (t # ts) \<rparr> hs)"
    by (simp add: handleEvent_def getEventPoint_def)
  fix c assume "c \<in> set (fst (handleEvent raises em type (TouchEvent (t # ts))))"
  then show "ne_point (snd c) = \<lparr> point_x = num_sub (touch_clientX t) (canvas_left em),
                           point_y = num_sub (touch_clientY t) (canvas_top em) \<rparr>"
    unfolding eq by (cases "handlers em type") (auto dest: call_handlers_event)
qed

theorem handleEvent_touch_witness:
  "handleEvent (\<lambda>h e. False) two_listeners TouchEnd (TouchEvent []) = ([], None) \<and>
   map fst (fst (handleEvent (\<lambda>h e. False) two_listeners TouchMove
     (TouchEvent [\<lparr> touch_clientX = px 10, touch_clientY = px 9 \<rparr>,
                  \<lparr> touch_clientX = px 300, touch_clientY = px 200 \<rparr>]))) = [1, 2] \<and>
   map (\<lambda>c. ne_point (snd c)) (fst (handleEvent (\<lambda>h e. False) two_listeners TouchMove
     (TouchEvent [\<lparr> touch_clientX = px 10, touch_clientY = px 9 \<rparr>,
                  \<lparr> touch_clientX = px 300, touch_clientY = px 200 \<rparr>]))) =
     [\<lparr> point_x = num_sub (px 10) (px 8), point_y = num_sub (px 9) (px 8) \<rparr>,
      \<lparr> point_x = num_sub (px 10) (px 8), point_y = num_sub (px 9) (px 8) \<rparr>]"
  using handleEvent_touch [of "\<lambda>h e. False" two_listeners TouchEnd
      "\<lparr> touch_clientX = px 10, touch_clientY = px 9 \<rparr>"
      "[\<lparr> touch_clientX = px 300, touch_clientY = px 200 \<rparr>]"]
    handleEvent_touch [of "\<lambda>h e. False" two_listeners TouchMove
      "\<lparr> touch_clientX = px 10, touch_clientY = px 9 \<rparr>"
      "[\<lparr> touch_clientX = px 300, touch_clientY = px 200 \<rparr>]"]
  by (simp add: two_listeners_def on_def)

section \<open>Properties of the chart\<close>

lemma render_components_drawn:
  "drawn (render_components ctx cs r) =
     drawn r @ map (\<lambda>component. (ctx, Render (renderable_id component)))
       (filter (\<lambda>component. renderable_visible component \<noteq> Some False) cs)"
  by (induction cs arbitrary: r) (simp_all add: draw_def)

lemma render_components_layers: "layers (render_components ctx cs r) = layers r"
  by (induction cs arbitrary: r) (simp_all add: draw_def)

lemma render_layers_drawn:
  assumes "list_all (\<lambda>k. map_of (layers r) k \<noteq> None) ls"
  shows "snd (render_layers rs ls r) = None \<and>
         layers (fst (render_layers rs ls r)) = layers r \<and>
         drawn (fst (render_layers rs ls r)) = drawn r @ concat (map (layer_renders rs) ls)"
  using assms
proof (induction ls arbitrary: r)
  case Nil
  then show ?case by simp
next
  case (Cons l ls)
  show ?case
  proof (cases "rs l")
    case None
    with Cons show ?thesis by (simp add: layer_renders_def)
  next
    case (Some comps)
    from Cons.prems have ctx: "getContext r l = Inr l"
      by (auto simp: getContext_def getLayer_def)
    from Cons.prems
    have "list_all (\<lambda>k. map_of (layers (render_components l comps r)) k \<noteq> None) ls"
      by (simp add: render_components_layers)
    from Cons.IH [OF this] Some ctx show ?thesis
      by (simp add: layer_renders_def render_components_drawn render_components_layers)
  qed
qed

text \<open>
  C1, as stated, on a new chart with no renderable: \<open>render\<close> itself clears the
  surface of each of the five layers (\<open>this.renderer.clearAll()\<close>) before it fills
  the background.
\<close>

theorem render_clears_counterexample:
  "drawn (renderer (fst (render new_chart))) =
     [(Background, ClearRect (px 0) (px 0) (px 800) (px 600)),
      (Grid, ClearRect (px 0) (px 0) (px 800) (px 600)),
      (Data, ClearRect (px 0) (px 0) (px 800) (px 600)),
      (Interaction, ClearRect (px 0) (px 0) (px 800) (px 600)),
      (Overlay, ClearRect (px 0) (px 0) (px 800) (px 600)),
      (Background, SetFillStyle ''#ffffff''),
      (Background, FillRect (px 0) (px 0) (px 800) (px 600))]"
  by (simp add: render_def new_chart_def new_renderer_def clearAll_def layer_clear_def
      layer_order_def getContext_def getLayer_def draw_def)

text \<open>
  C1, amended. On a chart whose renderer has its five layers, \<open>render\<close> raises nothing
  and makes these calls, in this order: it clears the whole surface of every layer
  (which marks every layer dirty), sets the fill style of the background layer to the
  configured colour and fills the rectangle of the configured width and height, and
  then, layer by layer in the fixed order and within a layer in insertion order, calls
  \<open>render\<close> of every renderable whose \<open>visible\<close> is not \<open>false\<close>, with the context of
  that layer.
\<close>

theorem render_order:
  assumes "has_all_layers (renderer c)"
  shows "snd (render c) = None \<and>
         drawn (renderer (fst (render c))) =
           drawn (renderer c)
           @ map (\<lambda>(k, l). (k, ClearRect (px 0) (px 0) (canvas_width l) (canvas_height l)))
               (layers (renderer c))
           @ [(Background, SetFillStyle (config_backgroundColor (config c))),
              (Background, FillRect (px 0) (px 0) (config_width (config c)) (config_height (config c)))]
           @ concat (map (layer_renders (renderables c)) layer_order) \<and>
         list_all (\<lambda>(k, l). isDirty l) (layers (renderer (fst (render c))))"
proof -
  let ?r1 = "clearAll (renderer c)"
  have keys: "map_of (layers ?r1) k \<noteq> None" if "map_of (layers (renderer c)) k \<noteq> None" for k
    using that by (auto simp: clearAll_def map_of_eq_None_iff image_iff split: prod.splits)
  from assms have all: "list_all (\<lambda>k. map_of (layers ?r1) k \<noteq> None) layer_order"
    unfolding has_all_layers_def list_all_iff using keys by blast
  then have bg: "getContext ?r1 Background = Inr Background"
    by (auto simp: layer_order_def getContext_def getLayer_def)
  let ?r3 = "draw Background
               (FillRect (px 0) (px 0) (config_width (config c)) (config_height (config c)))
               (draw Background (SetFillStyle (config_backgroundColor (config c))) ?r1)"
  have l3: "layers ?r3 = layers ?r1" by (simp add: draw_def)
  from all have "list_all (\<lambda>k. map_of (layers ?r3) k \<noteq> None) layer_order" by (simp add: l3)
  from render_layers_drawn [OF this, of "renderables c"]
  have err: "snd (render_layers (renderables c) layer_order ?r3) = None"
    and lay: "layers (fst (render_layers (renderables c) layer_order ?r3)) = layers ?r1"
    and drw: "drawn (fst (render_layers (renderables c) layer_order ?r3)) =
              drawn ?r3 @ concat (map (layer_renders (renderables c)) layer_order)"
    by (simp_all add: l3)
  have res: "render c =
    (c\<lparr> renderer := fst (render_layers (renderables c) layer_order ?r3) \<rparr>,
     snd (render_layers (renderables c) layer_order ?r3))"
    by (simp add: render_def Let_def bg split: prod.splits)
  have dirty: "list_all (\<lambda>(k, l). isDirty l) (layers ?r1)"
    by (auto simp: clearAll_def layer_clear_def list_all_iff)
  have d3: "drawn ?r3 = drawn (renderer c)
           @ map (\<lambda>(k, l). (k, ClearRect (px 0) (px 0) (canvas_width l) (canvas_height l)))
               (layers (renderer c))
           @ [(Background, SetFillStyle (config_backgroundColor (config c))),
              (Background, FillRect (px 0) (px 0) (config_width (config c)) (config_height (config c)))]"
    by (simp add: draw_def clearAll_def layer_clear_def split_def)
  show ?thesis
    using err dirty by (simp add: res drw d3 lay)
qed

theorem render_order_witness:
  "has_all_layers (renderer four_renderables) \<and>
   snd (render four_renderables) = None \<and>
   drawn (renderer (fst (render four_renderables))) =
     [(Background, ClearRect (px 0) (px 0) (px 800) (px 600)),
      (Grid, ClearRect (px 0) (px 0) (px 800) (px 600)),
      (Data, ClearRect (px 0) (px 0) (px 800) (px 600)),
      (Interaction, ClearRect (px 0) (px 0) (px 800) (px 600)),
      (Overlay, ClearRect (px 0) (px 0) (px 800) (px 600)),
      (Background, SetFillStyle ''#ffffff''),
      (Background, FillRect (px 0) (px 0) (px 800) (px 600)),
      (Background, Render 3),
      (Data, Render 1),
      (Data, Render 4)]"
proof -
  have h: "has_all_layers (renderer four_renderables)"
    by (simp add: has_all_layers_def four_renderables_def add_def new_chart_def
        new_renderer_def layer_order_def)
  have r: "renderer four_renderables = new_renderer"
    and c: "config four_renderables = config new_chart"
    by (simp_all add: four_renderables_def add_def new_chart_def)
  have rs: "concat (map (layer_renders (renderables four_renderables)) layer_order) =
      [(Background, Render 3), (Data, Render 1), (Data, Render 4)]"
    by (simp add: layer_renders_def four_renderables_def add_def new_chart_def layer_order_def)
  from render_order [OF h] h show ?thesis
    unfolding rs unfolding r c by (simp add: new_renderer_def new_chart_def layer_order_def)
qed

section \<open>Properties of the scale manager\<close>

lemma new_Set_snoc: "new_Set (vs @ [v]) = set_add (new_Set vs) v"
  by (simp add: new_Set_def)

lemma set_new_Set: "set (new_Set vs) = set vs"
  by (induction vs rule: rev_induct) (auto simp: new_Set_snoc set_add_def, simp add: new_Set_def)

lemma distinct_new_Set: "distinct (new_Set vs)"
  by (induction vs rule: rev_induct) (auto simp: new_Set_snoc set_add_def, simp add: new_Set_def)

lemma first_seen_snoc:
  "first_seen (vs @ [v]) = first_seen vs @ (if v \<in> set vs then [] else [v])"
proof -
  have f: "filter (\<lambda>i. (vs @ [v]) ! i \<notin> set (take i (vs @ [v]))) [0..<length vs]
         = filter (\<lambda>i. vs ! i \<notin> set (take i vs)) [0..<length vs]"
    by (rule filter_cong) (simp_all add: nth_append)
  have m: "map (\<lambda>i. (vs @ [v]) ! i) (filter (\<lambda>i. vs ! i \<notin> set (take i vs)) [0..<length vs])
         = map (\<lambda>i. vs ! i) (filter (\<lambda>i. vs ! i \<notin> set (take i vs)) [0..<length vs])"
    by (rule map_cong) (simp_all add: nth_append)
  have u: "[0..<length (vs @ [v])] = [0..<length vs] @ [length vs]"
    by simp
  have "first_seen (vs @ [v]) =
      map (\<lambda>i. vs ! i) (filter (\<lambda>i. vs ! i \<notin> set (take i vs)) [0..<length vs])
      @ map (\<lambda>i. (vs @ [v]) ! i)
          (filter (\<lambda>i. (vs @ [v]) ! i \<notin> set (take i (vs @ [v]))) [length vs])"
    unfolding first_seen_def u filter_append map_append f m ..
  then show ?thesis by (simp add: first_seen_def)
qed

lemma new_Set_first_seen: "new_Set vs = first_seen vs"
proof (induction vs rule: rev_induct)
  case Nil
  show ?case by (simp add: new_Set_def first_seen_def)
next
  case (snoc v vs)
  have "new_Set (vs @ [v]) = new_Set vs @ (if v \<in> set vs then [] else [v])"
    by (simp add: new_Set_snoc set_add_def set_new_Set)
  also have "\<dots> = first_seen (vs @ [v])"
    by (simp only: snoc.IH first_seen_snoc)
  finally show ?case .
qed

lemma computeDomain_cases: "continuous t \<or> categorical t"
  by (cases t) (simp_all add: continuous_def categorical_def)

text \<open>
  C4. For a continuous variant, \<open>computeDomain\<close> fails with \<open>EmptyDomainError\<close> on
  the empty dataset and returns the pair of the least and the greatest accessor result
  on any other; for a categorical variant it returns the distinct accessor results in
  first-seen order, and the empty domain, not a failure, on the empty dataset.
\<close>

theorem computeDomain_domain:
  "(continuous t \<longrightarrow>
      computeDomain [] accessor t = Inl EmptyDomainError \<and>
      (data \<noteq> [] \<longrightarrow>
         computeDomain data accessor t =
           Inr [Min (set (map_indexed accessor data)), Max (set (map_indexed accessor data))])) \<and>
   (categorical t \<longrightarrow>
      computeDomain data accessor t = Inr (first_seen (map_indexed accessor data)) \<and>
      distinct (first_seen (map_indexed accessor data)) \<and>
      set (first_seen (map_indexed accessor data)) = set (map_indexed accessor data) \<and>
      computeDomain [] accessor t = Inr [])"
proof (intro conjI impI)
  assume c: "continuous t"
  then have n: "\<not> (t = Band \<or> t = PointScale \<or> t = Ordinal)"
    by (auto simp: continuous_def)
  show "computeDomain [] accessor t = Inl EmptyDomainError"
    using n by (simp add: computeDomain_def extent_def map_indexed_def)
  assume "data \<noteq> []"
  then have "map_indexed accessor data \<noteq> []"
    by (simp add: map_indexed_def)
  then show "computeDomain data accessor t =
           Inr [Min (set (map_indexed accessor data)), Max (set (map_indexed accessor data))]"
    using n by (simp add: computeDomain_def extent_def)
next
  assume "categorical t"
  then have y: "t = Band \<or> t = PointScale \<or> t = Ordinal"
    by (simp add: categorical_def)
  then show "computeDomain data accessor t = Inr (first_seen (map_indexed accessor data))"
    by (simp add: computeDomain_def new_Set_first_seen)
  show "distinct (first_seen (map_indexed accessor data))"
    by (simp add: new_Set_first_seen [symmetric] distinct_new_Set)
  show "set (first_seen (map_indexed accessor data)) = set (map_indexed accessor data)"
    by (simp add: new_Set_first_seen [symmetric] set_new_Set)
  from y show "computeDomain [] accessor t = Inr []"
    by (simp add: computeDomain_def new_Set_def map_indexed_def)
qed

theorem computeDomain_domain_witness:
  "continuous Linear \<and> categorical Band \<and>
   computeDomain [] (\<lambda>d i. d) Linear = (Inl EmptyDomainError :: error + int list) \<and>
   computeDomain [3, 1, 2, 1 :: int] (\<lambda>d i. d) Linear = Inr [1, 3] \<and>
   computeDomain [''b'', ''a'', ''b'', ''c''] (\<lambda>d i. length d) Band = Inr [1]
   \<and> computeDomain [3, 1, 3, 2 :: int] (\<lambda>d i. d) Band = Inr [3, 1, 2]"
  using computeDomain_domain [of Linear "\<lambda>d i. d" "[3, 1, 2, 1 :: int]"]
    computeDomain_domain [of Band "\<lambda>d i. d" "[3, 1, 3, 2 :: int]"]
    computeDomain_domain [of Band "\<lambda>d i. length d" "[''b'', ''a'', ''b'', ''c'']"]
  by (simp add: continuous_def categorical_def map_indexed_def first_seen_def)

end
